theory Spec2Isabelle
  imports Complex_Main "HOL-Library.Word" "HOL-Library.Signed_Division" "HOL-Library.Monad_Syntax"
begin

unbundle bit_operations_syntax

section \<open>Types and constants\<close>

text \<open>
  The sources are \<^verbatim>\<open>Logs.h\<close>, \<^verbatim>\<open>Logs.c\<close> and the function
  \<^verbatim>\<open>UpdateSpaceVector\<close>. \<^verbatim>\<open>Logs.c\<close> says that it is written for the
  TI 28335 DSP. A C \<^verbatim>\<open>long\<close> is a 32-bit word. The \<^verbatim>\<open>int\<close> globals are
  counters, flags and indices; they are kept as integers, their overflow is not modelled,
  and the one place where the width of \<^verbatim>\<open>int\<close> decides the result (the mask
  \<^verbatim>\<open>0x01<<fcode\<close>) takes the width from the platform. A \<^verbatim>\<open>float\<close> that is
  only stored, copied or compared is the real number it denotes; no rounded arithmetic
  is modelled.
\<close>

type_synonym long = "32 word"

type_synonym timestamp = "long \<times> long"

subsection \<open>Logs.h\<close>

definition E_START :: int where "E_START = 1"
definition E_STOP :: int where "E_STOP = 2"
definition E_RESET :: int where "E_RESET = 3"
definition E_FORCE :: int where "E_FORCE = 4"
definition E_STATE :: int where "E_STATE = 5"
definition E_PARAM :: int where "E_PARAM = 6"
definition E_FAULT :: int where "E_FAULT = 7"
definition E_DATALOG :: int where "E_DATALOG = 8"
definition E_SETPOINT :: int where "E_SETPOINT = 9"
definition E_FLASH :: int where "E_FLASH = 10"
definition E_CANBAD :: int where "E_CANBAD = 11"

definition F_STATE :: long where "F_STATE = 0"
definition F_OVERCURRENT :: long where "F_OVERCURRENT = 1"
definition F_OVERSPEED :: long where "F_OVERSPEED = 2"
definition F_OVERTEMP :: long where "F_OVERTEMP = 3"
definition F_OVERVOLT :: long where "F_OVERVOLT = 4"
definition F_CHECKSUM :: long where "F_CHECKSUM = 5"
definition F_WDOG :: long where "F_WDOG = 6"
definition F_GROUND :: long where "F_GROUND = 7"
definition F_ENCODER :: long where "F_ENCODER = 8"
definition F_RESOLVER :: long where "F_RESOLVER = 9"
definition F_UNDERVOLT :: long where "F_UNDERVOLT = 10"
definition F_UVLO :: long where "F_UVLO = 11"
definition F_CANBUS :: long where "F_CANBUS = 12"
definition F_VOLTBALANCE :: long where "F_VOLTBALANCE = 13"
definition F_OVERRUN :: long where "F_OVERRUN = 14"
definition F_SPEED :: long where "F_SPEED = 15"
definition F_STALL :: long where "F_STALL = 16"

subsection \<open>What Setup.h and the target supply\<close>

text \<open>
  \<^verbatim>\<open>Setup.h\<close> is not among the sources. Its macros \<^verbatim>\<open>EVENT_SIZE\<close> and
  \<^verbatim>\<open>LOG_SIZE\<close>, the values \<^verbatim>\<open>READY\<close> and \<^verbatim>\<open>FAULT\<close> of the machine state, the
  address of \<^verbatim>\<open>LogBuf\<close> and the addresses of the variables \<^verbatim>\<open>DefaultLog\<close> logs
  are parameters of the model. So is \<open>int_bits\<close>, the width of \<^verbatim>\<open>int\<close> of the target's
  compiler: it is 16 on the TI 28335 (where \<^verbatim>\<open>long\<close> has 32 bits), and \<^verbatim>\<open>Logs.c\<close>
  relies on it where it keeps a data address in an \<^verbatim>\<open>int\<close> and masks it with
  \<^verbatim>\<open>0x0000FFFF\<close> before use.
\<close>

datatype signal = IdRef | IqRef | RpmRef | Id_sig | Iq_sig | RpmOut | VdRef | VqRef | ThetaOut

record platform =
  EVENT_SIZE :: nat
  LOG_SIZE :: int
  READY :: int
  FAULT :: int
  LogBuf :: int
  addr_of :: "signal \<Rightarrow> int"
  int_bits :: nat

section \<open>The event log\<close>

text \<open>
  The five arrays of the data section "Events" and the index of the next slot.
\<close>

record event_log =
  EventTime1 :: "long list"
  EventTime2 :: "long list"
  EventCode :: "int list"
  EventData1 :: "int list"
  EventData2 :: "real list"
  EventIndex :: int

text \<open>Each array has \<^verbatim>\<open>EVENT_SIZE\<close> cells.\<close>

definition arrays_ok :: "platform \<Rightarrow> event_log \<Rightarrow> bool" where
  "arrays_ok p e \<longleftrightarrow>
     length (EventTime1 e) = EVENT_SIZE p \<and> length (EventTime2 e) = EVENT_SIZE p \<and>
     length (EventCode e) = EVENT_SIZE p \<and> length (EventData1 e) = EVENT_SIZE p \<and>
     length (EventData2 e) = EVENT_SIZE p"

definition index_ok :: "platform \<Rightarrow> event_log \<Rightarrow> bool" where
  "index_ok p e \<longleftrightarrow> 0 \<le> EventIndex e \<and> EventIndex e < int (EVENT_SIZE p)"

text \<open>The record held by slot \<open>i\<close>: time stamp, code, integer and float argument.\<close>

type_synonym event = "timestamp \<times> int \<times> int \<times> real"

definition slot :: "event_log \<Rightarrow> nat \<Rightarrow> event" where
  "slot e i = ((EventTime1 e ! i, EventTime2 e ! i), EventCode e ! i, EventData1 e ! i, EventData2 e ! i)"

text \<open>
  \<^verbatim>\<open>InitEvents\<close>: the loop clears slot \<open>i\<close> for \<open>i = 0, ..., EVENT_SIZE - 1\<close>, then the
  index is reset.
\<close>

definition clear_slot :: "nat \<Rightarrow> event_log \<Rightarrow> event_log" where
  "clear_slot i e =
     e\<lparr>EventTime1 := (EventTime1 e)[i := 0], EventTime2 := (EventTime2 e)[i := 0],
       EventCode := (EventCode e)[i := 0], EventData1 := (EventData1 e)[i := 0],
       EventData2 := (EventData2 e)[i := 0]\<rparr>"

definition InitEvents :: "platform \<Rightarrow> event_log \<Rightarrow> event_log" where
  "InitEvents p e = (fold clear_slot [0..<EVENT_SIZE p] e)\<lparr>EventIndex := 0\<rparr>"

text \<open>
  \<^verbatim>\<open>LogEvent\<close>. \<^verbatim>\<open>TimeStamp(&i1,&i2)\<close> is external: the pair it returns is the
  argument \<open>ts\<close>. A write outside the arrays is undefined in C: the model returns
  \<open>None\<close> there.
\<close>

definition LogEvent :: "platform \<Rightarrow> timestamp \<Rightarrow> int \<Rightarrow> int \<Rightarrow> real \<Rightarrow> event_log \<Rightarrow> event_log option" where
  "LogEvent p ts Code Data1 Data2 e =
     (if 0 \<le> EventIndex e \<and> EventIndex e < int (EVENT_SIZE p) then
        let k = nat (EventIndex e);
            e' = e\<lparr>EventTime1 := (EventTime1 e)[k := fst ts],
                   EventTime2 := (EventTime2 e)[k := snd ts],
                   EventCode := (EventCode e)[k := Code],
                   EventData1 := (EventData1 e)[k := Data1],
                   EventData2 := (EventData2 e)[k := Data2],
                   EventIndex := EventIndex e + 1\<rparr>
        in Some (if EventIndex e' = int (EVENT_SIZE p) then e'\<lparr>EventIndex := 0\<rparr> else e')
      else None)"

text \<open>A sequence of calls of \<^verbatim>\<open>LogEvent\<close>, one per record of the list.\<close>

fun LogEvents :: "platform \<Rightarrow> event list \<Rightarrow> event_log \<Rightarrow> event_log option" where
  "LogEvents p [] e = Some e"
| "LogEvents p ((ts, c, d1, d2) # es) e =
     (case LogEvent p ts c d1 d2 e of None \<Rightarrow> None | Some e' \<Rightarrow> LogEvents p es e')"

section \<open>The machine state\<close>

text \<open>
  The globals of \<^verbatim>\<open>Logs.c\<close> and the externals its functions write. Data memory
  is a store of float cells, \<open>mem\<close>: \<^verbatim>\<open>LogBuf\<close> lies in it at the address
  \<open>LogBuf p\<close>, as do the signals the channels point to, and a \<^verbatim>\<open>float *\<close> is the
  address of a cell. \<^verbatim>\<open>LogBase\<close> and \<^verbatim>\<open>LogPtr\<close> are arrays of
  \<^verbatim>\<open>LOG_CHAN\<close> pointers, a macro of \<^verbatim>\<open>Setup.h\<close>; they are kept as functions of
  the index, so the model sets no bound on the index (\<^verbatim>\<open>InitLog\<close> writes the cells 0
  to 8 of \<^verbatim>\<open>LogPtr\<close>).
\<close>

text \<open>
  Modelled from the spec: \<^verbatim>\<open>PWM_disable\<close>, the external capability that disables the
  PWM outputs, clears \<open>PwmEnabled\<close>; \<^verbatim>\<open>FLAG2ON\<close>, the request of the hardware reset
  pulse, sets \<open>Flag2\<close>. Neither is in the sources, and no property below depends on
  them.
\<close>

record state =
  Events :: event_log
  FaultWord :: long
  mainState :: int
  PwmEnabled :: bool
  WeRef :: real
  Flag2 :: bool
  FaultResetCount :: int
  mem :: "int \<Rightarrow> real"
  LogChan :: int
  LogLength :: int
  LogBase :: "nat \<Rightarrow> int"
  LogCount :: int
  LogSingle :: int
  LogPtr :: "nat \<Rightarrow> int"
  LogSkip :: int
  LogTrigger :: int
  OldTrigger :: int
  LogInit :: int
  LogSkipCount :: int
  LogAddr0 :: int
  LogAddr1 :: int
  LogAddr2 :: int
  LogAddr3 :: int
  LogAddr4 :: int
  LogAddr5 :: int
  LogAddr6 :: int
  LogAddr7 :: int
  LogAddr8 :: int
  LogAuto :: int

text \<open>The initialisers of \<^verbatim>\<open>Logs.c\<close>, applied to whatever the loader left.\<close>

definition startup :: "platform \<Rightarrow> state \<Rightarrow> state" where
  "startup p s =
     s\<lparr>LogChan := 1, LogLength := LOG_SIZE p, LogCount := 0, LogSingle := 0, LogSkip := 0,
       LogTrigger := 0, OldTrigger := 0, LogInit := 0, LogSkipCount := 0,
       Events := (Events s)\<lparr>EventIndex := 0\<rparr>, FaultWord := 0\<rparr>"

text \<open>\<^verbatim>\<open>LogEvent\<close> as a step of the machine state.\<close>

definition log_event :: "platform \<Rightarrow> timestamp \<Rightarrow> int \<Rightarrow> int \<Rightarrow> real \<Rightarrow> state \<Rightarrow> state option" where
  "log_event p ts Code Data1 Data2 s =
     (case LogEvent p ts Code Data1 Data2 (Events s) of
        None \<Rightarrow> None
      | Some e \<Rightarrow> Some (s\<lparr>Events := e\<rparr>))"

section \<open>Faults\<close>

text \<open>
  A value converted to the target's \<^verbatim>\<open>int\<close>: its low \<open>int_bits\<close> bits, read as two's
  complement.
\<close>

definition to_int :: "platform \<Rightarrow> int \<Rightarrow> int" where
  "to_int p x = signed_take_bit (int_bits p - 1) x"

text \<open>
  \<^verbatim>\<open>a << n\<close> for an \<^verbatim>\<open>int\<close> \<open>a\<close>: the result has the type \<^verbatim>\<open>int\<close> whatever the type
  of the count. A count that is negative or not less than the width of \<^verbatim>\<open>int\<close> is
  undefined in C (\<open>None\<close>); otherwise the bits shifted out are lost.
\<close>

definition shl_int :: "platform \<Rightarrow> int \<Rightarrow> int \<Rightarrow> int option" where
  "shl_int p a n =
     (if 0 \<le> n \<and> n < int (int_bits p) then Some (to_int p (a * 2 ^ nat n)) else None)"

text \<open>
  \<^verbatim>\<open>Fault(fcode, data2)\<close>. The two time stamps are those of the two calls of
  \<^verbatim>\<open>LogEvent\<close>, where they are made. The mask is an \<^verbatim>\<open>int\<close>; the operators
  \<^verbatim>\<open>&\<close> and \<^verbatim>\<open>|\<close> convert it to \<^verbatim>\<open>long\<close> with its sign.
\<close>

definition Fault :: "platform \<Rightarrow> timestamp \<Rightarrow> timestamp \<Rightarrow> long \<Rightarrow> real \<Rightarrow> state \<Rightarrow> state option" where
  "Fault p ts1 ts2 fcode data2 s = do {
     let s1 = s\<lparr>PwmEnabled := False\<rparr>;
     m \<leftarrow> shl_int p 1 (sint fcode);
     s2 \<leftarrow> (if FaultWord s1 AND word_of_int m = 0
            then log_event p ts1 E_FAULT (to_int p (sint fcode)) data2 s1
            else Some s1);
     let s3 = s2\<lparr>FaultWord := FaultWord s2 OR word_of_int m\<rparr>;
     s4 \<leftarrow> (if mainState s3 \<noteq> FAULT p
            then log_event p ts2 E_STATE (FAULT p) 0 (s3\<lparr>mainState := FAULT p\<rparr>)
            else Some s3);
     let s5 = (if LogAuto s4 = 1 then s4\<lparr>LogTrigger := 0\<rparr> else s4);
     Some (s5\<lparr>WeRef := 0\<rparr>)
   }"

text \<open>\<^verbatim>\<open>ResetFaults()\<close>.\<close>

definition ResetFaults :: "platform \<Rightarrow> timestamp \<Rightarrow> timestamp \<Rightarrow> state \<Rightarrow> state option" where
  "ResetFaults p ts1 ts2 s = do {
     s1 \<leftarrow> log_event p ts1 E_RESET 0 0 (s\<lparr>FaultWord := 0\<rparr>);
     s2 \<leftarrow> (if mainState s1 = FAULT p
            then do {
              s' \<leftarrow> log_event p ts2 E_STATE (READY p) 0 s1;
              Some (s'\<lparr>mainState := READY p\<rparr>)
            }
            else Some s1);
     Some (s2\<lparr>Flag2 := True, FaultResetCount := 20\<rparr>)
   }"

section \<open>The data log\<close>

text \<open>\<^verbatim>\<open>DefaultLog(i)\<close>: only case 1 does anything.\<close>

definition DefaultLog :: "platform \<Rightarrow> int \<Rightarrow> state \<Rightarrow> state" where
  "DefaultLog p i s =
     (if i = 1 then
        s\<lparr>LogAddr0 := to_int p (addr_of p IdRef),
          LogAddr1 := to_int p (addr_of p IqRef),
          LogAddr2 := to_int p (addr_of p RpmRef),
          LogAddr3 := to_int p (addr_of p Id_sig),
          LogAddr4 := to_int p (addr_of p Iq_sig),
          LogAddr5 := to_int p (addr_of p RpmOut),
          LogAddr6 := to_int p (addr_of p VdRef),
          LogAddr7 := to_int p (addr_of p VqRef),
          LogAddr8 := to_int p (addr_of p ThetaOut),
          LogChan := 9, LogSingle := 0, LogSkip := 20, LogAuto := 1, LogInit := 1\<rparr>
      else s)"

text \<open>
  \<^verbatim>\<open>InitLog()\<close>. The division is C's, truncating; by zero it is undefined (\<open>None\<close>).
  The loop sets \<^verbatim>\<open>LogBase[i]\<close> for \<open>i = 0, ..., LogChan - 1\<close>.
\<close>

definition InitLog :: "platform \<Rightarrow> state \<Rightarrow> state option" where
  "InitLog p s =
     (if LogChan s = 0 then None
      else
        let len = LOG_SIZE p sdiv LogChan s in
        Some (s\<lparr>LogTrigger := 0,
                LogLength := len,
                LogBase := fold (\<lambda>i b. b(i := LogBuf p + int i * len)) [0..<nat (LogChan s)] (LogBase s),
                LogInit := 0, LogCount := 0, LogSkipCount := 0,
                LogPtr := (LogPtr s)
                  (0 := LogAddr0 s AND 0xFFFF, 1 := LogAddr1 s AND 0xFFFF,
                   2 := LogAddr2 s AND 0xFFFF, 3 := LogAddr3 s AND 0xFFFF,
                   4 := LogAddr4 s AND 0xFFFF, 5 := LogAddr5 s AND 0xFFFF,
                   6 := LogAddr6 s AND 0xFFFF, 7 := LogAddr7 s AND 0xFFFF,
                   8 := LogAddr8 s AND 0xFFFF)\<rparr>))"

text \<open>
  The body of \<^verbatim>\<open>UpdateLog\<close> that records: the loop copies, for each channel, the cell
  \<^verbatim>\<open>LogPtr[i]\<close> points to into \<^verbatim>\<open>LogBase[i][LogCount]\<close>; then the count, the end
  of the buffer and a negative trigger are handled.
\<close>

definition copy_channels :: "state \<Rightarrow> int \<Rightarrow> real" where
  "copy_channels s =
     fold (\<lambda>i m. m(LogBase s i + LogCount s := m (LogPtr s i))) [0..<nat (LogChan s)] (mem s)"

definition end_of_buffer :: "state \<Rightarrow> state" where
  "end_of_buffer s =
     (if LogCount s = LogLength s then
        (if LogSingle s = 1 then s\<lparr>LogTrigger := 0\<rparr> else s)\<lparr>LogCount := 0\<rparr>
      else s)"

definition record_sample :: "state \<Rightarrow> state" where
  "record_sample s =
     (let s1 = s\<lparr>LogSkipCount := 0\<rparr>;
          s2 = s1\<lparr>mem := copy_channels s1\<rparr>;
          s3 = s2\<lparr>LogCount := LogCount s2 + 1\<rparr>;
          s4 = end_of_buffer s3
      in if LogTrigger s4 < 0 then s4\<lparr>LogTrigger := LogTrigger s4 + 1\<rparr> else s4)"

text \<open>\<^verbatim>\<open>UpdateLog()\<close>, one tick.\<close>

definition UpdateLog :: "platform \<Rightarrow> timestamp \<Rightarrow> state \<Rightarrow> state option" where
  "UpdateLog p ts s = do {
     s1 \<leftarrow> (if LogTrigger s \<noteq> OldTrigger s
            then log_event p ts E_DATALOG (LogTrigger s) (of_int (LogSkip s)) s
            else Some s);
     let s2 = s1\<lparr>OldTrigger := LogTrigger s1\<rparr>;
     s3 \<leftarrow> (if LogInit s2 \<noteq> 0 then InitLog p s2 else Some s2);
     Some (if LogTrigger s3 \<noteq> 0 then
             (if LogSkipCount s3 < LogSkip s3
              then s3\<lparr>LogSkipCount := LogSkipCount s3 + 1\<rparr>
              else record_sample s3)
           else s3)
   }"

text \<open>Ticks in a row, with nothing else writing the globals in between.\<close>

fun ticks :: "platform \<Rightarrow> timestamp list \<Rightarrow> state \<Rightarrow> state option" where
  "ticks p [] s = Some s"
| "ticks p (ts # tss) s =
     (case UpdateLog p ts s of None \<Rightarrow> None | Some s' \<Rightarrow> ticks p tss s')"

text \<open>The three operations on the data log, and a sequence of them.\<close>

datatype call = CallDefaultLog int | CallInitLog | CallUpdateLog timestamp

fun do_call :: "platform \<Rightarrow> call \<Rightarrow> state \<Rightarrow> state option" where
  "do_call p (CallDefaultLog i) s = Some (DefaultLog p i s)"
| "do_call p CallInitLog s = InitLog p s"
| "do_call p (CallUpdateLog ts) s = UpdateLog p ts s"

fun do_calls :: "platform \<Rightarrow> call list \<Rightarrow> state \<Rightarrow> state option" where
  "do_calls p [] s = Some s"
| "do_calls p (c # cs) s =
     (case do_call p c s of None \<Rightarrow> None | Some s' \<Rightarrow> do_calls p cs s')"

section \<open>Space vector modulation: the sector\<close>

text \<open>
  The sector selection of \<^verbatim>\<open>UpdateSpaceVector\<close>: it reads \<^verbatim>\<open>SvmAlpha\<close>,
  \<^verbatim>\<open>SvmBeta\<close> and the value \<^verbatim>\<open>SvmBetaSqrt3\<close> computed just before it, and only
  compares them and takes absolute values, which no rounding touches: the arguments are
  the reals that the finite floats denote. The function gives the value of
  \<^verbatim>\<open>SvmSector\<close> after the selection. The arithmetic that follows in
  \<^verbatim>\<open>UpdateSpaceVector\<close> (the times, the clamp and the on-times) rounds at every
  operation and is not modelled.
\<close>

definition SvmSector :: "real \<Rightarrow> real \<Rightarrow> real \<Rightarrow> int" where
  "SvmSector SvmAlpha SvmBeta SvmBetaSqrt3 =
     (let SvmAlphaAbs = \<bar>SvmAlpha\<bar> in
      if SvmBeta \<ge> 0 then
        (if SvmAlphaAbs < \<bar>SvmBetaSqrt3\<bar> then 2
         else if SvmAlpha \<ge> 0 then 1 else 3)
      else
        (if SvmAlphaAbs < \<bar>SvmBetaSqrt3\<bar> then 5
         else if SvmAlpha \<ge> 0 then 6 else 4))"

section \<open>A small instance\<close>

text \<open>
  A platform with two event slots and eight buffer cells on a 16-bit target, and a machine
  at rest on it, for evaluating the functions on concrete inputs.
\<close>

definition demo_platform :: platform where
  "demo_platform =
     \<lparr>EVENT_SIZE = 2, LOG_SIZE = 8, READY = 1, FAULT = 2, LogBuf = 0xE000,
      addr_of = (\<lambda>x. 0xC000), int_bits = 16\<rparr>"

definition demo_state :: state where
  "demo_state =
     \<lparr>Events = \<lparr>EventTime1 = [0, 0], EventTime2 = [0, 0], EventCode = [0, 0],
                EventData1 = [0, 0], EventData2 = [0, 0], EventIndex = 0\<rparr>,
      FaultWord = 0, mainState = 1, PwmEnabled = True, WeRef = 0, Flag2 = False,
      FaultResetCount = 0, mem = (\<lambda>a. 0), LogChan = 1, LogLength = 8,
      LogBase = (\<lambda>i. 0xE000), LogCount = 0, LogSingle = 0, LogPtr = (\<lambda>i. 0xC000),
      LogSkip = 0, LogTrigger = 0, OldTrigger = 0, LogInit = 0, LogSkipCount = 0,
      LogAddr0 = 0, LogAddr1 = 0, LogAddr2 = 0, LogAddr3 = 0, LogAddr4 = 0, LogAddr5 = 0,
      LogAddr6 = 0, LogAddr7 = 0, LogAddr8 = 0, LogAuto = 0\<rparr>"

section \<open>Properties of the event log\<close>

lemma arrays_ok_clear_slot: "arrays_ok p (clear_slot i e) = arrays_ok p e"
  by (simp add: arrays_ok_def clear_slot_def)

lemma arrays_ok_fold_clear: "arrays_ok p (fold clear_slot is e) = arrays_ok p e"
  by (induction "is" arbitrary: e) (simp_all add: arrays_ok_clear_slot)

lemma arrays_ok_EventIndex_update: "arrays_ok p (e\<lparr>EventIndex := k\<rparr>) = arrays_ok p e"
  by (simp add: arrays_ok_def)

lemma arrays_ok_InitEvents: "arrays_ok p (InitEvents p e) = arrays_ok p e"
  by (simp add: InitEvents_def arrays_ok_EventIndex_update arrays_ok_fold_clear)

lemma EventIndex_InitEvents: "EventIndex (InitEvents p e) = 0"
  by (simp add: InitEvents_def)

lemma LogEvent_defined:
  assumes "index_ok p e"
  shows "\<exists>e'. LogEvent p ts c d1 d2 e = Some e'"
  using assms by (simp add: LogEvent_def index_ok_def Let_def)

lemma LogEvent_arrays_ok:
  assumes "LogEvent p ts c d1 d2 e = Some e'" and "arrays_ok p e"
  shows "arrays_ok p e'"
  using assms by (auto simp: LogEvent_def arrays_ok_def Let_def split: if_splits)

lemma LogEvent_index:
  assumes "LogEvent p ts c d1 d2 e = Some e'"
  shows "EventIndex e' = (EventIndex e + 1) mod int (EVENT_SIZE p)"
  using assms by (auto simp: LogEvent_def Let_def split: if_splits)

lemma LogEvent_index_ok:
  assumes "LogEvent p ts c d1 d2 e = Some e'"
  shows "index_ok p e'"
  using assms by (auto simp: LogEvent_def index_ok_def Let_def split: if_splits)

lemma LogEvent_slot_written:
  assumes "LogEvent p ts c d1 d2 e = Some e'" and "arrays_ok p e"
  shows "slot e' (nat (EventIndex e)) = (ts, c, d1, d2)"
  using assms by (auto simp: LogEvent_def arrays_ok_def slot_def Let_def split: if_splits)

lemma LogEvent_slot_other:
  assumes "LogEvent p ts c d1 d2 e = Some e'" and "i \<noteq> nat (EventIndex e)"
  shows "slot e' i = slot e i"
  using assms by (auto simp: LogEvent_def slot_def Let_def split: if_splits)

lemma LogEvents_snoc:
  "LogEvents p (es @ [(ts, c, d1, d2)]) e =
     (case LogEvents p es e of None \<Rightarrow> None | Some e' \<Rightarrow> LogEvent p ts c d1 d2 e')"
  by (induction es arbitrary: e) (auto split: option.splits)

text \<open>
  After any number of records written to a cleared log, the index is the number of
  records modulo the capacity, and each of the last \<^verbatim>\<open>EVENT_SIZE\<close> records is in
  the slot of its number modulo the capacity.
\<close>

lemma LogEvents_from_init:
  assumes ok: "arrays_ok p e0" and pos: "0 < EVENT_SIZE p"
  shows "\<exists>e. LogEvents p es (InitEvents p e0) = Some e \<and> arrays_ok p e \<and>
           EventIndex e = int (length es mod EVENT_SIZE p) \<and>
           (\<forall>j. j < length es \<and> length es \<le> j + EVENT_SIZE p \<longrightarrow> slot e (j mod EVENT_SIZE p) = es ! j)"
proof (induction es rule: rev_induct)
  case Nil
  show ?case using ok by (simp add: arrays_ok_InitEvents EventIndex_InitEvents)
next
  case (snoc x es)
  obtain ts c d1 d2 where x: "x = (ts, c, d1, d2)" by (cases x) auto
  let ?N = "EVENT_SIZE p"
  from snoc obtain e where e: "LogEvents p es (InitEvents p e0) = Some e" "arrays_ok p e"
    "EventIndex e = int (length es mod ?N)"
    and old: "\<And>j. j < length es \<Longrightarrow> length es \<le> j + ?N \<Longrightarrow> slot e (j mod ?N) = es ! j"
    by blast
  have "index_ok p e" using e(3) pos by (simp add: index_ok_def)
  then obtain e' where e': "LogEvent p ts c d1 d2 e = Some e'"
    using LogEvent_defined by blast
  have run: "LogEvents p (es @ [x]) (InitEvents p e0) = Some e'"
    by (simp add: x LogEvents_snoc e(1) e')
  have idx: "EventIndex e' = int (length (es @ [x]) mod ?N)"
    using LogEvent_index [OF e'] e(3) by (simp add: zmod_int mod_simps add.commute)
  have k: "nat (EventIndex e) = length es mod ?N" using e(3) by simp
  have slots: "slot e' (j mod ?N) = (es @ [x]) ! j"
    if "j < length (es @ [x])" "length (es @ [x]) \<le> j + ?N" for j
  proof (cases "j = length es")
    case True
    then show ?thesis using LogEvent_slot_written [OF e' e(2)] k by (simp add: x)
  next
    case False
    with that have j: "j < length es" "length es \<le> j + ?N" "length es - j < ?N" by auto
    have "j mod ?N \<noteq> length es mod ?N"
    proof
      assume "j mod ?N = length es mod ?N"
      then have "?N dvd (length es - j)" using j(1) by (metis mod_eq_dvd_iff_nat less_imp_le)
      then show False using j(1,3) by (auto dest: dvd_imp_le)
    qed
    then have "slot e' (j mod ?N) = slot e (j mod ?N)"
      using LogEvent_slot_other [OF e'] k by simp
    then show ?thesis using old [OF j(1,2)] j(1) by (simp add: nth_append)
  qed
  show ?case using run LogEvent_arrays_ok [OF e' e(2)] idx slots by blast
qed

section \<open>Properties of the data log\<close>

lemma log_event_defined:
  assumes "index_ok p (Events s)"
  shows "\<exists>e. LogEvent p ts c d1 d2 (Events s) = Some e \<and> index_ok p e \<and>
           log_event p ts c d1 d2 s = Some (s\<lparr>Events := e\<rparr>)"
proof -
  from LogEvent_defined [OF assms] obtain e where e: "LogEvent p ts c d1 d2 (Events s) = Some e"
    by blast
  then show ?thesis using LogEvent_index_ok [OF e] by (simp add: log_event_def)
qed

lemma fold_set_cells:
  "fold (\<lambda>i b. b(i := f i)) [0..<n] b0 j = (if j < n then f j else b0 j)"
  by (induction n) auto

lemma record_sample_frame [simp]:
  "Events (record_sample s) = Events s" "OldTrigger (record_sample s) = OldTrigger s"
  "LogInit (record_sample s) = LogInit s" "LogSingle (record_sample s) = LogSingle s"
  "LogChan (record_sample s) = LogChan s" "LogLength (record_sample s) = LogLength s"
  "LogSkip (record_sample s) = LogSkip s" "LogSkipCount (record_sample s) = 0"
  by (simp_all add: record_sample_def end_of_buffer_def Let_def)

lemma UpdateLog_tick:
  assumes idx: "index_ok p (Events s)" and chan: "LogInit s = 0 \<or> LogChan s \<noteq> 0"
  shows "\<exists>s'. UpdateLog p ts s = Some s' \<and> OldTrigger s' = LogTrigger s \<and>
           index_ok p (Events s') \<and>
           (if LogTrigger s \<noteq> OldTrigger s
            then LogEvent p ts E_DATALOG (LogTrigger s) (of_int (LogSkip s)) (Events s) = Some (Events s')
            else Events s' = Events s)"
proof (cases "LogTrigger s \<noteq> OldTrigger s")
  case True
  from log_event_defined [OF idx, of ts E_DATALOG "LogTrigger s" "of_int (LogSkip s)"]
  obtain e where e: "LogEvent p ts E_DATALOG (LogTrigger s) (of_int (LogSkip s)) (Events s) = Some e"
    "index_ok p e"
    "log_event p ts E_DATALOG (LogTrigger s) (of_int (LogSkip s)) s = Some (s\<lparr>Events := e\<rparr>)"
    by blast
  show ?thesis using True e chan
    by (auto simp: UpdateLog_def InitLog_def Let_def)
next
  case False
  then show ?thesis using idx chan
    by (auto simp: UpdateLog_def InitLog_def Let_def)
qed

lemma UpdateLog_OldTrigger:
  assumes "UpdateLog p ts s = Some s'"
  shows "OldTrigger s' = LogTrigger s"
  using assms
  by (auto simp: UpdateLog_def log_event_def InitLog_def Let_def
      split: if_splits option.splits Option.bind_splits)

lemma UpdateLog_LogChan:
  assumes "UpdateLog p ts s = Some s'"
  shows "LogChan s' = LogChan s"
  using assms
  by (auto simp: UpdateLog_def log_event_def InitLog_def Let_def
      split: if_splits option.splits Option.bind_splits)

lemma UpdateLog_idle:
  assumes idx: "index_ok p (Events s)" and chan: "LogInit s = 0 \<or> LogChan s \<noteq> 0"
    and idle: "LogTrigger s = 0"
  shows "\<exists>s'. UpdateLog p ts s = Some s' \<and> LogTrigger s' = 0 \<and> mem s' = mem s \<and>
           LogInit s' = 0 \<and> LogCount s' = (if LogInit s = 0 then LogCount s else 0) \<and>
           index_ok p (Events s')"
proof (cases "LogTrigger s \<noteq> OldTrigger s")
  case True
  from log_event_defined [OF idx, of ts E_DATALOG "LogTrigger s" "of_int (LogSkip s)"]
  obtain e where e: "index_ok p e"
    "log_event p ts E_DATALOG (LogTrigger s) (of_int (LogSkip s)) s = Some (s\<lparr>Events := e\<rparr>)"
    by blast
  show ?thesis using True e chan idle
    by (auto simp: UpdateLog_def InitLog_def Let_def)
next
  case False
  then show ?thesis using idx chan idle
    by (auto simp: UpdateLog_def InitLog_def Let_def)
qed

lemma UpdateLog_reconfigure:
  assumes idx: "index_ok p (Events s)" and init: "LogInit s \<noteq> 0" and chan: "LogChan s \<noteq> 0"
  shows "\<exists>s'. UpdateLog p ts s = Some s' \<and> LogTrigger s' = 0 \<and> mem s' = mem s \<and>
           LogInit s' = 0 \<and> LogCount s' = 0 \<and> LogSkipCount s' = 0 \<and>
           LogLength s' = LOG_SIZE p sdiv LogChan s \<and> index_ok p (Events s')"
proof (cases "LogTrigger s \<noteq> OldTrigger s")
  case True
  from log_event_defined [OF idx, of ts E_DATALOG "LogTrigger s" "of_int (LogSkip s)"]
  obtain e where e: "index_ok p e"
    "log_event p ts E_DATALOG (LogTrigger s) (of_int (LogSkip s)) s = Some (s\<lparr>Events := e\<rparr>)"
    by blast
  show ?thesis using True e chan init
    by (auto simp: UpdateLog_def InitLog_def Let_def)
next
  case False
  then show ?thesis using idx chan init
    by (auto simp: UpdateLog_def InitLog_def Let_def)
qed

lemma ticks_idle:
  assumes "index_ok p (Events s)" and "LogInit s = 0" and "LogTrigger s = 0"
  shows "\<exists>s'. ticks p tss s = Some s' \<and> LogTrigger s' = 0 \<and> mem s' = mem s \<and>
           LogCount s' = LogCount s"
  using assms
proof (induction tss arbitrary: s)
  case Nil
  then show ?case by simp
next
  case (Cons ts tss)
  from UpdateLog_idle [of p s ts] Cons.prems
  obtain s1 where s1: "UpdateLog p ts s = Some s1" "LogTrigger s1 = 0" "mem s1 = mem s"
    "LogInit s1 = 0" "LogCount s1 = LogCount s" "index_ok p (Events s1)"
    by auto
  from Cons.IH [OF s1(6,4,2)] s1 show ?case by auto
qed

lemma UpdateLog_wrap:
  assumes idx: "index_ok p (Events s)" and init: "LogInit s = 0" and trig: "LogTrigger s \<noteq> 0"
    and skip: "\<not> LogSkipCount s < LogSkip s" and full: "LogCount s + 1 = LogLength s"
  shows "\<exists>s'. UpdateLog p ts s = Some s' \<and> LogCount s' = 0 \<and>
           LogTrigger s' =
             (if LogSingle s = 1 then 0
              else if LogTrigger s < 0 then LogTrigger s + 1 else LogTrigger s)"
proof (cases "LogTrigger s \<noteq> OldTrigger s")
  case True
  from log_event_defined [OF idx, of ts E_DATALOG "LogTrigger s" "of_int (LogSkip s)"]
  obtain e where e: "index_ok p e"
    "log_event p ts E_DATALOG (LogTrigger s) (of_int (LogSkip s)) s = Some (s\<lparr>Events := e\<rparr>)"
    by blast
  show ?thesis using True e init trig skip full
    by (auto simp: UpdateLog_def record_sample_def end_of_buffer_def Let_def)
next
  case False
  then show ?thesis using init trig skip full
    by (auto simp: UpdateLog_def record_sample_def end_of_buffer_def Let_def)
qed

lemma UpdateLog_free_running:
  assumes idx: "index_ok p (Events s)" and init: "LogInit s = 0" and single: "LogSingle s \<noteq> 1"
    and trig: "0 < LogTrigger s"
  shows "\<exists>s'. UpdateLog p ts s = Some s' \<and> LogTrigger s' = LogTrigger s \<and>
           LogSingle s' = LogSingle s \<and> LogInit s' = 0 \<and> index_ok p (Events s') \<and>
           LogLength s' = LogLength s \<and>
           (0 \<le> LogCount s \<and> LogCount s < LogLength s \<longrightarrow>
              0 \<le> LogCount s' \<and> LogCount s' < LogLength s)"
proof (cases "LogTrigger s \<noteq> OldTrigger s")
  case True
  from log_event_defined [OF idx, of ts E_DATALOG "LogTrigger s" "of_int (LogSkip s)"]
  obtain e where e: "index_ok p e"
    "log_event p ts E_DATALOG (LogTrigger s) (of_int (LogSkip s)) s = Some (s\<lparr>Events := e\<rparr>)"
    by blast
  show ?thesis using True e init trig single
    by (auto simp: UpdateLog_def record_sample_def end_of_buffer_def Let_def)
next
  case False
  then show ?thesis using idx init trig single
    by (auto simp: UpdateLog_def record_sample_def end_of_buffer_def Let_def)
qed

lemma ticks_free_running:
  assumes "index_ok p (Events s)" and "LogInit s = 0" and "LogSingle s \<noteq> 1"
    and "0 < LogTrigger s" and "0 \<le> LogCount s" and "LogCount s < LogLength s"
  shows "\<exists>s'. ticks p tss s = Some s' \<and> LogTrigger s' = LogTrigger s \<and>
           0 \<le> LogCount s' \<and> LogCount s' < LogLength s"
  using assms
proof (induction tss arbitrary: s)
  case Nil
  then show ?case by simp
next
  case (Cons ts tss)
  from UpdateLog_free_running [OF Cons.prems(1-4), of ts] Cons.prems(5,6)
  obtain s1 where s1: "UpdateLog p ts s = Some s1" "LogTrigger s1 = LogTrigger s"
    "LogSingle s1 = LogSingle s" "LogInit s1 = 0" "index_ok p (Events s1)"
    "LogLength s1 = LogLength s" "0 \<le> LogCount s1" "LogCount s1 < LogLength s"
    by auto
  from Cons.IH [of s1] s1 Cons.prems show ?case by auto
qed

lemma do_call_LogChan:
  assumes "do_call p c s = Some s'" and "LogChan s = 1 \<or> LogChan s = 9"
  shows "LogChan s' = 1 \<or> LogChan s' = 9"
proof (cases c)
  case (CallDefaultLog i)
  then show ?thesis using assms by (auto simp: DefaultLog_def split: if_splits)
next
  case CallInitLog
  then show ?thesis using assms by (auto simp: InitLog_def Let_def split: if_splits)
next
  case (CallUpdateLog ts)
  then show ?thesis using assms UpdateLog_LogChan by auto
qed

text \<open>
  From the initial state the channel count is 1, and the three operations leave it 1 or
  make it 9.
\<close>

lemma do_calls_LogChan:
  assumes "do_calls p cs s = Some s'" and "LogChan s = 1 \<or> LogChan s = 9"
  shows "LogChan s' = 1 \<or> LogChan s' = 9"
  using assms
proof (induction cs arbitrary: s)
  case Nil
  then show ?case by simp
next
  case (Cons c cs)
  then obtain s1 where s1: "do_call p c s = Some s1" "do_calls p cs s1 = Some s'"
    by (auto split: option.splits)
  from Cons.IH [OF s1(2) do_call_LogChan [OF s1(1) Cons.prems(2)]] show ?case .
qed

section \<open>Properties of the fault latch\<close>

lemma to_int_small:
  assumes "0 \<le> k" and "k < 2 ^ (int_bits p - 1)"
  shows "to_int p k = k"
  using assms by (simp add: to_int_def signed_take_bit_int_eq_self)

lemma shl_int_one:
  assumes "n + 1 < int_bits p"
  shows "shl_int p 1 (int n) = Some (2 ^ n)"
proof -
  have "(2::int) ^ n < 2 ^ (int_bits p - 1)" using assms by simp
  then show ?thesis using assms by (simp add: shl_int_def to_int_small)
qed

lemma less_two_power: "int n < 2 ^ n"
  by (rule of_nat_less_two_power)

text \<open>
  Where the mask \<open>2 ^ n\<close> fits the target's \<^verbatim>\<open>int\<close>, \<^verbatim>\<open>Fault\<close> sets bit \<open>n\<close>, logs
  a fault event only if the bit was clear, and logs a state change only if the machine was
  not in \<^verbatim>\<open>FAULT\<close>.
\<close>

lemma Fault_in_range:
  assumes code: "sint fcode = int n" and fits: "n + 1 < int_bits p"
    and idx: "index_ok p (Events s)"
  shows "\<exists>s' e1. Fault p ts1 ts2 fcode data2 s = Some s' \<and>
           FaultWord s' = FaultWord s OR 2 ^ n \<and> mainState s' = FAULT p \<and>
           index_ok p (Events s') \<and>
           (if \<not> bit (FaultWord s) n
            then LogEvent p ts1 E_FAULT (int n) data2 (Events s) = Some e1
            else e1 = Events s) \<and>
           (if mainState s \<noteq> FAULT p
            then LogEvent p ts2 E_STATE (FAULT p) 0 e1 = Some (Events s')
            else Events s' = e1)"
proof -
  have m: "shl_int p 1 (sint fcode) = Some (2 ^ n)" using code fits by (simp add: shl_int_one)
  have "int n < 2 ^ n" by (rule less_two_power)
  also have "(2::int) ^ n < 2 ^ (int_bits p - 1)" using fits by simp
  finally have d1: "to_int p (sint fcode) = int n" using code by (simp add: to_int_small)
  have new: "(FaultWord s AND 2 ^ n = 0) = (\<not> bit (FaultWord s) n)"
    by (rule and_exp_eq_0_iff_not_bit)
  obtain e1 where e1:
    "if \<not> bit (FaultWord s) n
     then LogEvent p ts1 E_FAULT (int n) data2 (Events s) = Some e1 else e1 = Events s"
    "index_ok p e1"
  proof (cases "bit (FaultWord s) n")
    case True
    then show ?thesis using that [of "Events s"] idx by simp
  next
    case False
    from LogEvent_defined [OF idx, of ts1 E_FAULT "int n" data2]
    obtain e where e: "LogEvent p ts1 E_FAULT (int n) data2 (Events s) = Some e" by blast
    then show ?thesis using that [of e] False LogEvent_index_ok [OF e] by simp
  qed
  obtain e2 where e2:
    "if mainState s \<noteq> FAULT p
     then LogEvent p ts2 E_STATE (FAULT p) 0 e1 = Some e2 else e2 = e1"
    "index_ok p e2"
  proof (cases "mainState s = FAULT p")
    case True
    then show ?thesis using that [of e1] e1(2) by simp
  next
    case False
    from LogEvent_defined [OF e1(2), of ts2 E_STATE "FAULT p" 0]
    obtain e where e: "LogEvent p ts2 E_STATE (FAULT p) 0 e1 = Some e" by blast
    then show ?thesis using that [of e] False LogEvent_index_ok [OF e] by simp
  qed
  show ?thesis
  proof (cases "bit (FaultWord s) n"; cases "mainState s = FAULT p")
    assume "bit (FaultWord s) n" "mainState s = FAULT p"
    then show ?thesis using m d1 new e1 e2
      by (simp add: Fault_def Let_def log_event_def)
  next
    assume "bit (FaultWord s) n" "mainState s \<noteq> FAULT p"
    then show ?thesis using m d1 new e1 e2
      by (simp add: Fault_def Let_def log_event_def)
  next
    assume "\<not> bit (FaultWord s) n" "mainState s = FAULT p"
    then show ?thesis using m d1 new e1 e2
      by (simp add: Fault_def Let_def log_event_def)
  next
    assume "\<not> bit (FaultWord s) n" "mainState s \<noteq> FAULT p"
    then show ?thesis using m d1 new e1 e2
      by (simp add: Fault_def Let_def log_event_def)
  qed
qed

text \<open>
  So a second assertion of such a code, with no reset in between, logs nothing and leaves
  the bit set.
\<close>

lemma Fault_twice_in_range:
  assumes code: "sint fcode = int n" and fits: "n + 1 < int_bits p" and long: "n < 32"
    and idx: "index_ok p (Events s)" and new: "\<not> bit (FaultWord s) n"
  shows "\<exists>s' s'' e1. Fault p ts1 ts2 fcode x s = Some s' \<and>
           LogEvent p ts1 E_FAULT (int n) x (Events s) = Some e1 \<and>
           (if mainState s \<noteq> FAULT p
            then LogEvent p ts2 E_STATE (FAULT p) 0 e1 = Some (Events s')
            else Events s' = e1) \<and>
           Fault p ts3 ts4 fcode y s' = Some s'' \<and> Events s'' = Events s' \<and>
           bit (FaultWord s'') n"
proof -
  from Fault_in_range [OF code fits idx, of ts1 ts2 x] new
  obtain s' e1 where s': "Fault p ts1 ts2 fcode x s = Some s'"
    "FaultWord s' = FaultWord s OR 2 ^ n" "mainState s' = FAULT p" "index_ok p (Events s')"
    "LogEvent p ts1 E_FAULT (int n) x (Events s) = Some e1"
    "if mainState s \<noteq> FAULT p
     then LogEvent p ts2 E_STATE (FAULT p) 0 e1 = Some (Events s') else Events s' = e1"
    by auto
  have latched: "bit (FaultWord s') n" using long by (simp add: s'(2) bit_or_iff bit_exp_iff)
  from Fault_in_range [OF code fits s'(4), of ts3 ts4 y] latched s'(3)
  obtain s'' where s'': "Fault p ts3 ts4 fcode y s' = Some s''"
    "FaultWord s'' = FaultWord s' OR 2 ^ n" "Events s'' = Events s'"
    by auto
  have "bit (FaultWord s'') n" using latched by (simp add: s''(2) bit_or_iff)
  then show ?thesis using s'(1,5,6) s''(1,3) by blast
qed

text \<open>
  With a 16-bit \<^verbatim>\<open>int\<close> the mask of \<^verbatim>\<open>F_SPEED\<close> = 15 is the sign bit: converted to
  \<^verbatim>\<open>long\<close> it carries the bits 15 to 31.
\<close>

lemma mask_F_SPEED_16:
  "shl_int (p\<lparr>int_bits := 16\<rparr>) 1 (sint F_SPEED) = Some (- 32768) \<and>
   (word_of_int (- 32768) :: long) = 0xFFFF8000"
  by (simp add: shl_int_def to_int_def F_SPEED_def)

section \<open>Properties of the sector selection\<close>

lemma SvmSector_range:
  "1 \<le> SvmSector SvmAlpha SvmBeta SvmBetaSqrt3 \<and> SvmSector SvmAlpha SvmBeta SvmBetaSqrt3 \<le> 6"
  by (simp add: SvmSector_def)

lemma SvmSector_middle_iff:
  "(SvmSector SvmAlpha SvmBeta SvmBetaSqrt3 = 2 \<or> SvmSector SvmAlpha SvmBeta SvmBetaSqrt3 = 5)
     \<longleftrightarrow> \<bar>SvmAlpha\<bar> < \<bar>SvmBetaSqrt3\<bar>"
  by (simp add: SvmSector_def Let_def del: abs_less_iff)

section \<open>Claims\<close>

text \<open>
  C1 (amended). In the sector selection of \<^verbatim>\<open>UpdateSpaceVector\<close>, an input on the
  boundary, where \<open>|SvmAlpha|\<close> equals \<open>|SvmBetaSqrt3|\<close>, is never given the middle
  sector: the comparison is strict, so the tie falls to the outer sector on the side of
  \<open>SvmAlpha\<close>, sector 1 (\<open>SvmAlpha \<ge> 0\<close>) or 3 for \<open>SvmBeta \<ge> 0\<close>, and sector 6
  (\<open>SvmAlpha \<ge> 0\<close>) or 4 for \<open>SvmBeta < 0\<close>.
\<close>

theorem SvmSector_tie:
  assumes "\<bar>SvmAlpha\<bar> = \<bar>SvmBetaSqrt3\<bar>"
  shows "SvmSector SvmAlpha SvmBeta SvmBetaSqrt3 =
           (if SvmBeta \<ge> 0 then (if SvmAlpha \<ge> 0 then 1 else 3)
            else (if SvmAlpha \<ge> 0 then 6 else 4))"
  using assms by (simp add: SvmSector_def)

theorem SvmSector_tie_witness:
  "\<bar>- 2 :: real\<bar> = \<bar>2\<bar> \<and> SvmSector (- 2) 3 2 = 3"
  using SvmSector_tie [of "- 2" 2 3] by simp

text \<open>
  C1 as stated fails at \<open>SvmAlpha = 0\<close>, \<open>SvmBeta = 0\<close>, where \<^verbatim>\<open>SvmBetaSqrt3\<close> is
  \<open>0\<close> too: the input is on the boundary and the sector is 1, not 2.
\<close>

theorem SvmSector_tie_counterexample:
  "\<bar>0 :: real\<bar> = \<bar>0\<bar> \<and> SvmSector 0 0 0 \<noteq> 2 \<and> SvmSector 0 0 0 = 1"
  by (simp add: SvmSector_def)

text \<open>
  C2 (the code departs from it). The claim bounds the channel count by 8, as the header of
  \<^verbatim>\<open>Logs.c\<close> does ("1 to 8 channels"). \<^verbatim>\<open>DefaultLog(1)\<close>, called in the initial
  state, sets \<^verbatim>\<open>LogChan\<close> to 9, and the next \<^verbatim>\<open>UpdateLog\<close> partitions the buffer
  into nine records: its loop runs nine times and sets \<^verbatim>\<open>LogBase[8]\<close>.
\<close>

theorem DefaultLog_nine_channels:
  "LogChan (DefaultLog p 1 (startup p s)) = 9 \<and>
   (\<exists>s'. UpdateLog p ts (DefaultLog p 1 (startup p s)) = Some s' \<and> LogChan s' = 9 \<and>
      LogLength s' = LOG_SIZE p sdiv 9 \<and> LogBase s' 8 = LogBuf p + 8 * (LOG_SIZE p sdiv 9))"
  by (simp add: DefaultLog_def startup_def UpdateLog_def InitLog_def Let_def fold_set_cells)

text \<open>
  C3 (the code departs from it). The claim covers the fault codes 0 to 16. The mask
  \<^verbatim>\<open>0x01<<fcode\<close> is an \<^verbatim>\<open>int\<close>, not a \<^verbatim>\<open>long\<close>: on a target whose
  \<^verbatim>\<open>int\<close> has 16 bits, as the TI 28335 has, the shift by \<^verbatim>\<open>F_STALL\<close> = 16 is
  undefined, and an \<^verbatim>\<open>int\<close> has no seventeenth bit to latch (the low 16 bits of
  \<open>2 ^ 16\<close> are 0).
\<close>

theorem Fault_F_STALL_undefined:
  "Fault (p\<lparr>int_bits := 16\<rparr>) ts1 ts2 F_STALL data2 s = None \<and>
   to_int (p\<lparr>int_bits := 16\<rparr>) (1 * 2 ^ 16) = 0"
  by (simp add: Fault_def shl_int_def F_STALL_def to_int_def)

text \<open>
  C6. \<^verbatim>\<open>LogEvent\<close> succeeds whenever the index is within the arrays, and advances it
  modulo the capacity. With a capacity \<open>N\<close> of at least 2, \<open>N + 1\<close> records written to
  a log cleared by \<^verbatim>\<open>InitEvents\<close> leave the index at 1, the last record in slot 0 in
  place of the first, and records 2 to \<open>N\<close> in slots 1 to \<open>N - 1\<close>: the log holds the
  most recent \<open>N\<close> records.
\<close>

theorem LogEvent_ring:
  assumes ok: "arrays_ok p e0" and big: "1 < EVENT_SIZE p" and len: "length es = EVENT_SIZE p + 1"
  shows "(\<forall>ts c d1 d2 e. index_ok p e \<longrightarrow>
            (\<exists>e'. LogEvent p ts c d1 d2 e = Some e' \<and>
               EventIndex e' = (EventIndex e + 1) mod int (EVENT_SIZE p))) \<and>
         (\<exists>e. LogEvents p es (InitEvents p e0) = Some e \<and> EventIndex e = 1 \<and>
            slot e 0 = es ! EVENT_SIZE p \<and>
            (\<forall>i. 0 < i \<and> i < EVENT_SIZE p \<longrightarrow> slot e i = es ! i))"
proof
  show "\<forall>ts c d1 d2 e. index_ok p e \<longrightarrow>
          (\<exists>e'. LogEvent p ts c d1 d2 e = Some e' \<and>
             EventIndex e' = (EventIndex e + 1) mod int (EVENT_SIZE p))"
    using LogEvent_defined LogEvent_index by blast
next
  let ?N = "EVENT_SIZE p"
  have pos: "0 < ?N" using big by simp
  from LogEvents_from_init [OF ok pos, of es]
  obtain e where run: "LogEvents p es (InitEvents p e0) = Some e"
    and idx: "EventIndex e = int (length es mod ?N)"
    and last: "\<And>j. j < length es \<Longrightarrow> length es \<le> j + ?N \<Longrightarrow> slot e (j mod ?N) = es ! j"
    by blast
  have "EventIndex e = 1" using idx len big by (simp add: mod_Suc)
  moreover have "slot e 0 = es ! ?N" using last [of ?N] len big by simp
  moreover have "slot e i = es ! i" if "0 < i" "i < ?N" for i
    using last [of i] len that by simp
  ultimately show "\<exists>e. LogEvents p es (InitEvents p e0) = Some e \<and> EventIndex e = 1 \<and>
      slot e 0 = es ! ?N \<and> (\<forall>i. 0 < i \<and> i < ?N \<longrightarrow> slot e i = es ! i)"
    using run by blast
qed

theorem LogEvent_ring_witness:
  "arrays_ok demo_platform (Events demo_state) \<and>
   (\<exists>e. LogEvents demo_platform [((1, 0), 7, 3, 0), ((2, 0), 5, 2, 0), ((3, 0), 3, 0, 0)]
          (InitEvents demo_platform (Events demo_state)) = Some e \<and>
        EventIndex e = 1 \<and> slot e 0 = ((3, 0), 3, 0, 0) \<and> slot e 1 = ((2, 0), 5, 2, 0))"
proof -
  let ?es = "[((1, 0), 7, 3, 0), ((2, 0), 5, 2, 0), ((3, 0), 3, 0, 0)] :: event list"
  have h: "arrays_ok demo_platform (Events demo_state)" "1 < EVENT_SIZE demo_platform"
    "length ?es = EVENT_SIZE demo_platform + 1"
    by (simp_all add: arrays_ok_def demo_platform_def demo_state_def)
  from LogEvent_ring [OF h] obtain e where
    "LogEvents demo_platform ?es (InitEvents demo_platform (Events demo_state)) = Some e"
    "EventIndex e = 1" "slot e 0 = ?es ! EVENT_SIZE demo_platform"
    "\<forall>i. 0 < i \<and> i < EVENT_SIZE demo_platform \<longrightarrow> slot e i = ?es ! i"
    by blast
  then show ?thesis using h(1) by (auto simp: demo_platform_def)
qed

text \<open>
  C7 (amended). In \<^verbatim>\<open>UpdateLog\<close>, when a sample is recorded and the write index reaches
  \<^verbatim>\<open>LogLength\<close>, the index wraps to 0 in every case, and a single-shot logger
  (\<^verbatim>\<open>LogSingle == 1\<close>) has its trigger forced to 0. A logger that is not single-shot
  keeps a positive trigger, and with a positive trigger it keeps recording for any number
  of ticks, the index staying within the record; a negative trigger is incremented after
  the sample, so it stops such a logger when it reaches 0.
\<close>

theorem UpdateLog_end_of_buffer:
  assumes idx: "index_ok p (Events s)" and init: "LogInit s = 0" and trig: "LogTrigger s \<noteq> 0"
    and skip: "\<not> LogSkipCount s < LogSkip s" and full: "LogCount s + 1 = LogLength s"
    and count: "0 \<le> LogCount s"
  shows "\<exists>s'. UpdateLog p ts s = Some s' \<and> LogCount s' = 0 \<and>
           (LogSingle s = 1 \<longrightarrow> LogTrigger s' = 0) \<and>
           (LogSingle s \<noteq> 1 \<and> 0 < LogTrigger s \<longrightarrow>
              LogTrigger s' = LogTrigger s \<and>
              (\<forall>tss. \<exists>s''. ticks p tss s = Some s'' \<and> LogTrigger s'' = LogTrigger s \<and>
                       0 \<le> LogCount s'' \<and> LogCount s'' < LogLength s)) \<and>
           (LogSingle s \<noteq> 1 \<and> LogTrigger s < 0 \<longrightarrow> LogTrigger s' = LogTrigger s + 1)"
proof -
  from UpdateLog_wrap [OF idx init trig skip full, of ts]
  obtain s' where s': "UpdateLog p ts s = Some s'" "LogCount s' = 0"
    "LogTrigger s' =
       (if LogSingle s = 1 then 0 else if LogTrigger s < 0 then LogTrigger s + 1 else LogTrigger s)"
    by blast
  have less: "LogCount s < LogLength s" using full by simp
  have "\<forall>tss. \<exists>s''. ticks p tss s = Some s'' \<and> LogTrigger s'' = LogTrigger s \<and>
          0 \<le> LogCount s'' \<and> LogCount s'' < LogLength s"
    if "LogSingle s \<noteq> 1" "0 < LogTrigger s"
    using ticks_free_running [OF idx init that count less] by blast
  then show ?thesis using s' by auto
qed

theorem UpdateLog_end_of_buffer_witness:
  "(\<exists>s'. UpdateLog demo_platform (5, 0)
            (demo_state\<lparr>LogTrigger := 1, OldTrigger := 1, LogCount := 7\<rparr>) = Some s' \<and>
         LogCount s' = 0 \<and> LogTrigger s' = 1) \<and>
   (\<exists>s''. ticks demo_platform [(6, 0), (7, 0)]
            (demo_state\<lparr>LogTrigger := 1, OldTrigger := 1, LogCount := 7\<rparr>) = Some s'' \<and>
         LogTrigger s'' = 1 \<and> 0 \<le> LogCount s'' \<and> LogCount s'' < 8)"
proof -
  let ?s = "demo_state\<lparr>LogTrigger := 1, OldTrigger := 1, LogCount := 7\<rparr>"
  have h: "index_ok demo_platform (Events ?s)" "LogInit ?s = 0" "LogTrigger ?s \<noteq> 0"
    "\<not> LogSkipCount ?s < LogSkip ?s" "LogCount ?s + 1 = LogLength ?s" "0 \<le> LogCount ?s"
    by (simp_all add: index_ok_def demo_platform_def demo_state_def)
  have n: "LogSingle ?s \<noteq> 1 \<and> 0 < LogTrigger ?s" "LogTrigger ?s = 1" "LogLength ?s = 8"
    by (simp_all add: demo_state_def)
  from UpdateLog_end_of_buffer [OF h, of "(5, 0)"] n(1)
  obtain s' where "UpdateLog demo_platform (5, 0) ?s = Some s'" "LogCount s' = 0"
    "LogTrigger s' = LogTrigger ?s"
    "\<forall>tss. \<exists>s''. ticks demo_platform tss ?s = Some s'' \<and> LogTrigger s'' = LogTrigger ?s \<and>
       0 \<le> LogCount s'' \<and> LogCount s'' < LogLength ?s"
    by blast
  then show ?thesis unfolding n(2,3) by blast
qed

text \<open>
  C7 as stated fails for a logger that is not single-shot and has the trigger \<open>-1\<close>: the
  sample that fills the buffer wraps the index and the trigger becomes 0, so recording
  stops.
\<close>

theorem UpdateLog_end_of_buffer_counterexample:
  "LogSingle (demo_state\<lparr>LogTrigger := - 1, OldTrigger := - 1, LogCount := 7\<rparr>) \<noteq> 1 \<and>
   LogTrigger (demo_state\<lparr>LogTrigger := - 1, OldTrigger := - 1, LogCount := 7\<rparr>) \<noteq> 0 \<and>
   map_option LogCount (UpdateLog demo_platform (5, 0)
     (demo_state\<lparr>LogTrigger := - 1, OldTrigger := - 1, LogCount := 7\<rparr>)) = Some 0 \<and>
   map_option LogTrigger (UpdateLog demo_platform (5, 0)
     (demo_state\<lparr>LogTrigger := - 1, OldTrigger := - 1, LogCount := 7\<rparr>)) = Some 0"
  by (simp add: demo_state_def UpdateLog_def record_sample_def end_of_buffer_def Let_def)

text \<open>
  C8 (amended). Across two consecutive ticks of \<^verbatim>\<open>UpdateLog\<close>, where other code may
  write the globals in between but not \<^verbatim>\<open>OldTrigger\<close>: a tick on which the trigger
  differs from the value the previous tick was entered with logs exactly one event, in the
  slot at the index, with the time stamp, the code \<^verbatim>\<open>E_DATALOG\<close>, the new trigger
  value and the skip factor; the index advances by one modulo the capacity and the other
  slots are left as they were. A tick on which the trigger equals that value leaves the
  event log as it was. The tick in turn remembers the trigger it was entered with. So a
  change of the trigger from 0 to a nonzero value, or back, is logged once by the next tick
  when it is a change against the value the previous tick was entered with; what
  \<^verbatim>\<open>UpdateLog\<close> itself wrote to the trigger during the previous tick does not count as
  the old value.
\<close>

theorem UpdateLog_trigger_event:
  assumes prev: "UpdateLog p ts0 s0 = Some s1" and env: "OldTrigger s = OldTrigger s1"
    and idx: "index_ok p (Events s)" and arr: "arrays_ok p (Events s)"
    and chan: "LogInit s = 0 \<or> LogChan s \<noteq> 0"
  shows "\<exists>s'. UpdateLog p ts s = Some s' \<and> OldTrigger s' = LogTrigger s \<and>
           (if LogTrigger s \<noteq> LogTrigger s0
            then LogEvent p ts E_DATALOG (LogTrigger s) (of_int (LogSkip s)) (Events s) =
                   Some (Events s') \<and>
                 slot (Events s') (nat (EventIndex (Events s))) =
                   (ts, E_DATALOG, LogTrigger s, of_int (LogSkip s)) \<and>
                 EventIndex (Events s') = (EventIndex (Events s) + 1) mod int (EVENT_SIZE p) \<and>
                 (\<forall>i. i \<noteq> nat (EventIndex (Events s)) \<longrightarrow>
                      slot (Events s') i = slot (Events s) i)
            else Events s' = Events s)"
proof -
  from UpdateLog_tick [OF idx chan, of ts]
  obtain s' where s': "UpdateLog p ts s = Some s'" "OldTrigger s' = LogTrigger s"
    "if LogTrigger s \<noteq> OldTrigger s
     then LogEvent p ts E_DATALOG (LogTrigger s) (of_int (LogSkip s)) (Events s) = Some (Events s')
     else Events s' = Events s"
    by blast
  have old: "OldTrigger s = LogTrigger s0" using UpdateLog_OldTrigger [OF prev] env by simp
  show ?thesis
  proof (cases "LogTrigger s \<noteq> LogTrigger s0")
    case True
    with s'(3) old
    have e: "LogEvent p ts E_DATALOG (LogTrigger s) (of_int (LogSkip s)) (Events s) = Some (Events s')"
      by simp
    from LogEvent_slot_written [OF e arr] LogEvent_index [OF e] LogEvent_slot_other [OF e]
    show ?thesis using True s'(1,2) e by auto
  next
    case False
    then show ?thesis using s' old by auto
  qed
qed

theorem UpdateLog_trigger_event_witness:
  "UpdateLog demo_platform (4, 0) demo_state = Some demo_state \<and>
   (\<exists>s'. UpdateLog demo_platform (5, 0) (demo_state\<lparr>LogTrigger := 1, LogSkip := 3\<rparr>) = Some s' \<and>
         OldTrigger s' = 1 \<and>
         slot (Events s') 0 = ((5, 0), 8, 1, 3) \<and> EventIndex (Events s') = 1 \<and>
         slot (Events s') 1 = ((0, 0), 0, 0, 0)) \<and>
   (\<exists>s'. UpdateLog demo_platform (5, 0) demo_state = Some s' \<and> Events s' = Events demo_state)"
proof -
  let ?s = "demo_state\<lparr>LogTrigger := 1, LogSkip := 3\<rparr>"
  have prev: "UpdateLog demo_platform (4, 0) demo_state = Some demo_state"
    by (simp add: demo_state_def UpdateLog_def)
  have h: "index_ok demo_platform (Events ?s)" "arrays_ok demo_platform (Events ?s)"
    "LogInit ?s = 0 \<or> LogChan ?s \<noteq> 0" "OldTrigger ?s = OldTrigger demo_state"
    "index_ok demo_platform (Events demo_state)" "arrays_ok demo_platform (Events demo_state)"
    "LogInit demo_state = 0 \<or> LogChan demo_state \<noteq> 0"
    by (simp_all add: index_ok_def arrays_ok_def demo_state_def demo_platform_def)
  have v: "LogTrigger ?s \<noteq> LogTrigger demo_state" "LogTrigger ?s = 1" "LogSkip ?s = 3"
    "nat (EventIndex (Events ?s)) = 0" "EventIndex (Events ?s) = 0" "EVENT_SIZE demo_platform = 2"
    "slot (Events ?s) 1 = ((0, 0), 0, 0, 0)" "E_DATALOG = 8"
    by (simp_all add: demo_state_def demo_platform_def slot_def E_DATALOG_def)
  from UpdateLog_trigger_event [OF prev h(4,1,2,3), of "(5, 0)"] v(1)
  obtain s' where s': "UpdateLog demo_platform (5, 0) ?s = Some s'" "OldTrigger s' = LogTrigger ?s"
    "slot (Events s') (nat (EventIndex (Events ?s))) =
       ((5, 0), E_DATALOG, LogTrigger ?s, of_int (LogSkip ?s))"
    "EventIndex (Events s') = (EventIndex (Events ?s) + 1) mod int (EVENT_SIZE demo_platform)"
    "\<forall>i. i \<noteq> nat (EventIndex (Events ?s)) \<longrightarrow> slot (Events s') i = slot (Events ?s) i"
    by auto
  from s'(5) have "slot (Events s') 1 = slot (Events ?s) 1" unfolding v(4) by simp
  with s'(1-4) have a: "\<exists>s'. UpdateLog demo_platform (5, 0) ?s = Some s' \<and>
         OldTrigger s' = 1 \<and>
         slot (Events s') 0 = ((5, 0), 8, 1, 3) \<and> EventIndex (Events s') = 1 \<and>
         slot (Events s') 1 = ((0, 0), 0, 0, 0)"
    unfolding v(2-8) by simp
  from UpdateLog_trigger_event [OF prev refl h(5,6,7), of "(5, 0)"]
  have b: "\<exists>s'. UpdateLog demo_platform (5, 0) demo_state = Some s' \<and>
         Events s' = Events demo_state"
    by auto
  from prev a b show ?thesis by blast
qed

text \<open>
  C8 as stated fails where the previous tick itself wrote the trigger. A single-shot logger
  entered with the trigger 1 records the sample that fills the buffer, and the tick leaves
  the trigger 0 and \<^verbatim>\<open>OldTrigger\<close> 1. If the trigger is then changed from 0 to 1, the
  next tick logs no event, although it records a sample; if the trigger is left at 0,
  unchanged since the previous tick ended, the next tick logs an event.
\<close>

theorem UpdateLog_trigger_event_counterexample:
  "UpdateLog demo_platform (5, 0)
     (demo_state\<lparr>LogSingle := 1, LogTrigger := 1, OldTrigger := 1, LogCount := 7\<rparr>) =
     Some (demo_state\<lparr>LogSingle := 1, LogTrigger := 0, OldTrigger := 1, LogCount := 0\<rparr>) \<and>
   map_option Events (UpdateLog demo_platform (6, 0)
     (demo_state\<lparr>LogSingle := 1, LogTrigger := 0, OldTrigger := 1, LogCount := 0,
                 LogTrigger := 1\<rparr>)) =
     Some (Events demo_state) \<and>
   map_option LogCount (UpdateLog demo_platform (6, 0)
     (demo_state\<lparr>LogSingle := 1, LogTrigger := 0, OldTrigger := 1, LogCount := 0,
                 LogTrigger := 1\<rparr>)) = Some 1 \<and>
   map_option EventCode (map_option Events (UpdateLog demo_platform (6, 0)
     (demo_state\<lparr>LogSingle := 1, LogTrigger := 0, OldTrigger := 1, LogCount := 0\<rparr>))) =
     Some [8, 0]"
  by (simp add: demo_state_def demo_platform_def UpdateLog_def record_sample_def end_of_buffer_def
      copy_channels_def log_event_def LogEvent_def Let_def E_DATALOG_def fun_upd_idem_iff)

text \<open>
  C9. \<^verbatim>\<open>ResetFaults\<close>, in any state, clears the fault word and logs a reset event. If
  the machine state was \<^verbatim>\<open>FAULT\<close> it also logs a state change and the state becomes
  \<^verbatim>\<open>READY\<close>; otherwise the state is kept and the reset event is the only one logged,
  in particular when the state was already \<^verbatim>\<open>READY\<close>.
\<close>

theorem ResetFaults_effect:
  assumes idx: "index_ok p (Events s)"
  shows "\<exists>s' e1. ResetFaults p ts1 ts2 s = Some s' \<and> FaultWord s' = 0 \<and>
           LogEvent p ts1 E_RESET 0 0 (Events s) = Some e1 \<and>
           (if mainState s = FAULT p
            then mainState s' = READY p \<and> LogEvent p ts2 E_STATE (READY p) 0 e1 = Some (Events s')
            else mainState s' = mainState s \<and> Events s' = e1) \<and>
           (mainState s = READY p \<and> READY p \<noteq> FAULT p \<longrightarrow>
              mainState s' = READY p \<and> Events s' = e1)"
proof -
  from log_event_defined [of p "s\<lparr>FaultWord := 0\<rparr>" ts1 E_RESET 0 0] idx
  obtain e1 where e1: "LogEvent p ts1 E_RESET 0 0 (Events s) = Some e1" "index_ok p e1"
    "log_event p ts1 E_RESET 0 0 (s\<lparr>FaultWord := 0\<rparr>) = Some (s\<lparr>FaultWord := 0, Events := e1\<rparr>)"
    by auto
  from log_event_defined [of p "s\<lparr>FaultWord := 0, Events := e1\<rparr>" ts2 E_STATE "READY p" 0] e1(2)
  obtain e2 where e2: "LogEvent p ts2 E_STATE (READY p) 0 e1 = Some e2"
    "log_event p ts2 E_STATE (READY p) 0 (s\<lparr>FaultWord := 0, Events := e1\<rparr>) =
       Some (s\<lparr>FaultWord := 0, Events := e2\<rparr>)"
    by auto
  show ?thesis
    using e1(1,3) e2 by (cases "mainState s = FAULT p") (auto simp: ResetFaults_def)
qed

theorem ResetFaults_effect_witness:
  "(\<exists>s'. ResetFaults demo_platform (8, 0) (9, 0) (demo_state\<lparr>mainState := 2, FaultWord := 5\<rparr>)
           = Some s' \<and>
         FaultWord s' = 0 \<and> mainState s' = 1 \<and> EventCode (Events s') = [3, 5] \<and>
         EventData1 (Events s') = [0, 1]) \<and>
   (\<exists>s'. ResetFaults demo_platform (8, 0) (9, 0) demo_state = Some s' \<and>
         FaultWord s' = 0 \<and> mainState s' = 1 \<and> EventCode (Events s') = [3, 0] \<and>
         EventIndex (Events s') = 1)"
proof -
  let ?f = "demo_state\<lparr>mainState := 2, FaultWord := 5\<rparr>"
  have idx: "index_ok demo_platform (Events ?f)" "index_ok demo_platform (Events demo_state)"
    by (simp_all add: index_ok_def demo_platform_def demo_state_def)
  have st: "mainState ?f = FAULT demo_platform" "mainState demo_state \<noteq> FAULT demo_platform"
    "READY demo_platform = 1" "mainState demo_state = 1"
    by (simp_all add: demo_platform_def demo_state_def)
  from ResetFaults_effect [OF idx(1), of "(8, 0)" "(9, 0)"] st(1)
  obtain s' e1 where a: "ResetFaults demo_platform (8, 0) (9, 0) ?f = Some s'" "FaultWord s' = 0"
    "LogEvent demo_platform (8, 0) E_RESET 0 0 (Events ?f) = Some e1"
    "mainState s' = READY demo_platform"
    "LogEvent demo_platform (9, 0) E_STATE (READY demo_platform) 0 e1 = Some (Events s')"
    by auto
  from a(3) have "e1 = \<lparr>EventTime1 = [8, 0], EventTime2 = [0, 0], EventCode = [3, 0],
      EventData1 = [0, 0], EventData2 = [0, 0], EventIndex = 1\<rparr>"
    by (simp add: LogEvent_def demo_platform_def demo_state_def E_RESET_def)
  with a(5) have "Events s' = \<lparr>EventTime1 = [8, 9], EventTime2 = [0, 0], EventCode = [3, 5],
      EventData1 = [0, 1], EventData2 = [0, 0], EventIndex = 0\<rparr>"
    by (simp add: LogEvent_def demo_platform_def E_STATE_def)
  with a have first: "\<exists>s'. ResetFaults demo_platform (8, 0) (9, 0) ?f = Some s' \<and>
         FaultWord s' = 0 \<and> mainState s' = 1 \<and> EventCode (Events s') = [3, 5] \<and>
         EventData1 (Events s') = [0, 1]"
    by (simp add: st(3))
  from ResetFaults_effect [OF idx(2), of "(8, 0)" "(9, 0)"] st(2)
  obtain t' e1' where b: "ResetFaults demo_platform (8, 0) (9, 0) demo_state = Some t'"
    "FaultWord t' = 0"
    "LogEvent demo_platform (8, 0) E_RESET 0 0 (Events demo_state) = Some e1'"
    "mainState t' = mainState demo_state" "Events t' = e1'"
    by auto
  from b(3) have "e1' = \<lparr>EventTime1 = [8, 0], EventTime2 = [0, 0], EventCode = [3, 0],
      EventData1 = [0, 0], EventData2 = [0, 0], EventIndex = 1\<rparr>"
    by (simp add: LogEvent_def demo_platform_def demo_state_def E_RESET_def)
  with b have second: "\<exists>s'. ResetFaults demo_platform (8, 0) (9, 0) demo_state = Some s' \<and>
         FaultWord s' = 0 \<and> mainState s' = 1 \<and> EventCode (Events s') = [3, 0] \<and>
         EventIndex (Events s') = 1"
    by (simp add: st(4))
  from first second show ?thesis by blast
qed

text \<open>
  C10. A tick of \<^verbatim>\<open>UpdateLog\<close> that finds \<^verbatim>\<open>LogInit\<close> nonzero runs
  \<^verbatim>\<open>InitLog\<close>, which forces the trigger to 0: the tick records no sample (data memory
  is unchanged and the write index is 0), and so does every later tick while the trigger
  stays 0, whatever else was written in between.
\<close>

theorem UpdateLog_reconfigure_stops:
  assumes idx: "index_ok p (Events s)" and init: "LogInit s \<noteq> 0" and chan: "LogChan s \<noteq> 0"
  shows "\<exists>s'. UpdateLog p ts s = Some s' \<and> LogTrigger s' = 0 \<and> LogInit s' = 0 \<and>
           mem s' = mem s \<and> LogCount s' = 0 \<and>
           (\<forall>tss. \<exists>s''. ticks p tss s' = Some s'' \<and> LogTrigger s'' = 0 \<and>
                    mem s'' = mem s \<and> LogCount s'' = 0) \<and>
           (\<forall>t ts'. LogTrigger t = 0 \<and> index_ok p (Events t) \<and>
                   (LogInit t = 0 \<or> LogChan t \<noteq> 0) \<longrightarrow>
                   (\<exists>t'. UpdateLog p ts' t = Some t' \<and> LogTrigger t' = 0 \<and> mem t' = mem t))"
proof -
  from UpdateLog_reconfigure [OF idx init chan, of ts]
  obtain s' where s': "UpdateLog p ts s = Some s'" "LogTrigger s' = 0" "mem s' = mem s"
    "LogInit s' = 0" "LogCount s' = 0" "index_ok p (Events s')"
    by blast
  have later: "\<exists>s''. ticks p tss s' = Some s'' \<and> LogTrigger s'' = 0 \<and> mem s'' = mem s \<and>
      LogCount s'' = 0" for tss
    using ticks_idle [OF s'(6,4,2), of tss] s'(3,5) by auto
  have idle: "\<exists>t'. UpdateLog p ts' t = Some t' \<and> LogTrigger t' = 0 \<and> mem t' = mem t"
    if "LogTrigger t = 0 \<and> index_ok p (Events t) \<and> (LogInit t = 0 \<or> LogChan t \<noteq> 0)" for t ts'
    using UpdateLog_idle [of p t ts'] that by blast
  from s' later idle show ?thesis by blast
qed

theorem UpdateLog_reconfigure_stops_witness:
  "\<exists>s'. UpdateLog demo_platform (5, 0)
           (demo_state\<lparr>LogInit := 1, LogChan := 2, LogTrigger := 1, OldTrigger := 1, LogCount := 3\<rparr>)
           = Some s' \<and>
        LogTrigger s' = 0 \<and> LogInit s' = 0 \<and> LogCount s' = 0 \<and>
        (\<exists>s''. ticks demo_platform [(6, 0), (7, 0)] s' = Some s'' \<and> LogTrigger s'' = 0 \<and>
               LogCount s'' = 0)"
proof -
  let ?s = "demo_state\<lparr>LogInit := 1, LogChan := 2, LogTrigger := 1, OldTrigger := 1, LogCount := 3\<rparr>"
  have h: "index_ok demo_platform (Events ?s)" "LogInit ?s \<noteq> 0" "LogChan ?s \<noteq> 0"
    by (simp_all add: index_ok_def demo_platform_def demo_state_def)
  from UpdateLog_reconfigure_stops [OF h, of "(5, 0)"] show ?thesis by blast
qed

end
